theory Spec2Isabelle
  imports Main "HOL-Library.Word" "HOL-Library.DAList"
begin

section \<open>pkg/solana: token account records and the client\<close>

text \<open>
  \<^verbatim>\<open>TokenAccountInfo\<close> of \<^verbatim>\<open>pkg/solana/client.go\<close>. \<^verbatim>\<open>Balance\<close> is a
  \<^verbatim>\<open>uint64\<close>, \<^verbatim>\<open>Decimals\<close> a \<^verbatim>\<open>uint8\<close>; \<^verbatim>\<open>LastUpdatedAt\<close> is a point in
  time, kept as an integer.
\<close>

record TokenAccountInfo =
  Address :: string
  Owner :: string
  Mint :: string
  Balance :: "64 word"
  Decimals :: "8 word"
  ProgramID :: string
  LastUpdatedAt :: int

text \<open>
  One element of the answer of the RPC call \<^verbatim>\<open>GetTokenAccountsByOwner\<close>, as far as
  \<^verbatim>\<open>GetTokenAccounts\<close> reads it: the account's public key as a string, and the result of
  the type assertion \<^verbatim>\<open>item.Account.Data.GetJSONParsed().(*rpc.ParsedTokenAccount)\<close>
  (\<open>None\<close> when it is not ok). The time \<^verbatim>\<open>time.Now()\<close> returns while the item is
  converted is an input and comes with the item.
\<close>

record ParsedTokenAccount =
  Parsed_Info_Mint :: string
  Data_Program :: string
  TokenAmount_Amount_Uint64 :: "64 word"
  TokenAmount_Decimals :: int

record KeyedAccount =
  item_Pubkey :: string
  item_GetJSONParsed :: "ParsedTokenAccount option"
  item_Now :: int

text \<open>
  A notification of the program subscription, as far as
  \<^verbatim>\<open>parseTokenAccountFromSubscription\<close> reads it: the owner of the account, its public
  key as a string, the outcome of \<^verbatim>\<open>json.Marshal\<close> on the account (an error or the
  bytes), and the time \<^verbatim>\<open>time.Now()\<close> returns while the record is built.
\<close>

record ProgramNotification =
  Account_Owner :: string
  Value_Pubkey :: string
  Account_Marshal :: "string + string"
  notification_Now :: int

text \<open>The anonymous struct \<^verbatim>\<open>tokenAccount\<close> that the account data is unmarshalled into.\<close>

record tokenAccount =
  json_owner :: string
  Parsed_Type :: string
  Info_Mint :: string
  Info_Owner :: string
  TokenAmount_Amount :: string
  TokenAmount_Decimals8 :: "8 word"

text \<open>
  The collaborators of \<^verbatim>\<open>Client\<close> outside this repository (the solana-go library, the
  RPC node, \<^verbatim>\<open>encoding/json\<close>) are parameters of the model: each field is what the call
  of that name returns, errors as \<open>Inl\<close> with their message.
\<close>

record Client =
  PublicKeyFromBase58 :: "string \<Rightarrow> string + string"
  GetTokenAccountsByOwner :: "string \<Rightarrow> string + KeyedAccount list"
  ProgramSubscribe :: "string option"
  TokenProgramID :: string
  json_Unmarshal :: "string \<Rightarrow> string + tokenAccount"
  U64_SetString :: "string \<Rightarrow> 64 word option"

text \<open>
  The loop of \<^verbatim>\<open>GetTokenAccounts\<close> over \<^verbatim>\<open>res.Value\<close>: an item whose data does not
  parse is skipped (\<^verbatim>\<open>continue\<close>), every other item gives a record owned by
  \<^verbatim>\<open>walletAddress\<close>.
\<close>

fun tokenAccountsOf :: "string \<Rightarrow> KeyedAccount list \<Rightarrow> TokenAccountInfo list" where
  "tokenAccountsOf walletAddress [] = []"
| "tokenAccountsOf walletAddress (item # items) =
     (case item_GetJSONParsed item of
        None \<Rightarrow> tokenAccountsOf walletAddress items
      | Some info \<Rightarrow>
          \<lparr>Address = item_Pubkey item,
           Owner = walletAddress,
           Mint = Parsed_Info_Mint info,
           Balance = TokenAmount_Amount_Uint64 info,
           Decimals = word_of_int (TokenAmount_Decimals info),
           ProgramID = Data_Program info,
           LastUpdatedAt = item_Now item\<rparr> # tokenAccountsOf walletAddress items)"

definition GetTokenAccounts :: "Client \<Rightarrow> string \<Rightarrow> string + TokenAccountInfo list" where
  "GetTokenAccounts c walletAddress =
     (case PublicKeyFromBase58 c walletAddress of
        Inl err \<Rightarrow> Inl (''invalid wallet address: '' @ err)
      | Inr pubkey \<Rightarrow>
          (case GetTokenAccountsByOwner c pubkey of
             Inl err \<Rightarrow> Inl (''failed to get token accounts: '' @ err)
           | Inr res \<Rightarrow> Inr (tokenAccountsOf walletAddress res)))"

text \<open>
  \<^verbatim>\<open>parseTokenAccountFromSubscription\<close> returns \<^verbatim>\<open>(nil, nil)\<close> (here \<open>Inr None\<close>),
  \<^verbatim>\<open>(nil, err)\<close> (\<open>Inl err\<close>) or a record (\<open>Inr (Some info)\<close>). The record leaves
  \<^verbatim>\<open>ProgramID\<close> at its zero value.
\<close>

definition parseTokenAccountFromSubscription ::
  "Client \<Rightarrow> ProgramNotification \<Rightarrow> string \<Rightarrow> string + TokenAccountInfo option" where
  "parseTokenAccountFromSubscription c notification walletAddress =
     (if Account_Owner notification \<noteq> TokenProgramID c then Inr None
      else
        (case Account_Marshal notification of
           Inl err \<Rightarrow> Inl err
         | Inr accountData \<Rightarrow>
             (case json_Unmarshal c accountData of
                Inl err \<Rightarrow> Inl err
              | Inr ta \<Rightarrow>
                  if Info_Owner ta \<noteq> walletAddress then Inr None
                  else
                    (case U64_SetString c (TokenAmount_Amount ta) of
                       None \<Rightarrow> Inl (''invalid token amount: '' @ TokenAmount_Amount ta)
                     | Some amount \<Rightarrow>
                         Inr (Some \<lparr>Address = Value_Pubkey notification,
                                    Owner = walletAddress,
                                    Mint = Info_Mint ta,
                                    Balance = amount,
                                    Decimals = TokenAmount_Decimals8 ta,
                                    ProgramID = [],
                                    LastUpdatedAt = notification_Now notification\<rparr>)))))"

section \<open>pkg/monitor: the monitor\<close>

text \<open>
  A handler is a function value of the program; the model names it by a number. What a
  handler does runs in a goroutine of its own and is outside the model.
\<close>

type_synonym BalanceChangeHandler = nat

text \<open>
  What the program starts with a \<^verbatim>\<open>go\<close> statement: a handler called on a record, the
  subscription of one wallet, the periodic polling.
\<close>

datatype Task =
  HandlerCall BalanceChangeHandler TokenAccountInfo
| SubscribeTask string
| PollTask

text \<open>
  The mutable world of the program. \<^verbatim>\<open>heap\<close> holds the Go maps of type
  \<^verbatim>\<open>map[string]solana.TokenAccountInfo\<close> by address: a Go map is a reference, two variables
  can share one. A map has one entry per key; \<^verbatim>\<open>range\<close> visits the entries in an order
  the language leaves open, here the order of the list behind the map. Addresses below
  \<open>nextAddr\<close> are in use. \<open>goroutines\<close> are the tasks started so far, \<open>changes\<close> the
  records for which the line \<^verbatim>\<open>Token balance changed\<close> was logged; warnings and errors
  written to the log are not modelled.
\<close>

record World =
  heap :: "nat \<Rightarrow> (string, TokenAccountInfo) alist"
  nextAddr :: nat
  goroutines :: "Task list"
  changes :: "TokenAccountInfo list"

text \<open>
  The fields of \<^verbatim>\<open>Monitor\<close> that the model keeps. \<open>state\<close> is the address of the map
  (the map holds struct values, so a stored record shares nothing with the caller's).
  The client is a parameter of the functions that call it; the mutex is modelled by taking
  each critical section as one step; the context and its cancel function are left out.
\<close>

record Monitor =
  wallets :: "string list"
  tokens :: "string list"
  handlers :: "BalanceChangeHandler list"
  state :: nat

definition make_map :: "World \<Rightarrow> nat \<times> World" where
  "make_map w = (nextAddr w, w\<lparr>heap := (heap w)(nextAddr w := DAList.empty), nextAddr := Suc (nextAddr w)\<rparr>)"

definition NewMonitor :: "string list \<Rightarrow> string list \<Rightarrow> World \<Rightarrow> Monitor \<times> World" where
  "NewMonitor ws ts w =
     (case make_map w of
        (a, w') \<Rightarrow> (\<lparr>wallets = ws, tokens = ts, handlers = [], state = a\<rparr>, w'))"

definition RegisterHandler :: "Monitor \<Rightarrow> BalanceChangeHandler \<Rightarrow> Monitor" where
  "RegisterHandler m handler = m\<lparr>handlers := handlers m @ [handler]\<rparr>"

fun token_in_list :: "string list \<Rightarrow> string \<Rightarrow> bool" where
  "token_in_list [] mint = False"
| "token_in_list (token # rest) mint = (if token = mint then True else token_in_list rest mint)"

definition shouldTrackToken :: "Monitor \<Rightarrow> string \<Rightarrow> bool" where
  "shouldTrackToken m mint =
     (if length (tokens m) = 0 then True else token_in_list (tokens m) mint)"

definition account_key :: "TokenAccountInfo \<Rightarrow> string" where
  "account_key account = Owner account @ '':'' @ Mint account"

text \<open>\<^verbatim>\<open>balanceChanged := !exists || oldAccount.Balance != account.Balance\<close>\<close>

definition balanceChanged :: "TokenAccountInfo option \<Rightarrow> TokenAccountInfo \<Rightarrow> bool" where
  "balanceChanged old account =
     (case old of None \<Rightarrow> True | Some oldAccount \<Rightarrow> Balance oldAccount \<noteq> Balance account)"

text \<open>The \<^verbatim>\<open>go handler(account)\<close> of every registered handler, in the order of the list.\<close>

definition notify_handlers :: "Monitor \<Rightarrow> TokenAccountInfo \<Rightarrow> Task list" where
  "notify_handlers m account = map (\<lambda>handler. HandlerCall handler account) (handlers m)"

definition processAccountUpdate :: "Monitor \<Rightarrow> TokenAccountInfo \<Rightarrow> World \<Rightarrow> World" where
  "processAccountUpdate m account w =
     (let key = account_key account;
          changed = balanceChanged (DAList.lookup (heap w (state m)) key) account;
          w1 = w\<lparr>heap := (heap w)(state m := DAList.update key account (heap w (state m)))\<rparr>
      in if changed
         then w1\<lparr>goroutines := goroutines w1 @ notify_handlers m account,
                 changes := changes w1 @ [account]\<rparr>
         else w1)"

text \<open>
  \<^verbatim>\<open>GetCurrentState\<close>: a new map, then every entry of \<^verbatim>\<open>m.state\<close> stored into it; the
  address of the new map is returned.
\<close>

definition GetCurrentState :: "Monitor \<Rightarrow> World \<Rightarrow> nat \<times> World" where
  "GetCurrentState m w =
     (case make_map w of
        (stateCopy, w') \<Rightarrow>
          (stateCopy,
           w'\<lparr>heap := (heap w')(stateCopy :=
                 fold (\<lambda>(k, v) c. DAList.update k v c) (DAList.impl_of (heap w' (state m)))
                   (heap w' stateCopy))\<rparr>))"

text \<open>
  The inner loop of \<^verbatim>\<open>updateInitialState\<close> and of \<^verbatim>\<open>startPeriodicPolling\<close> (the same
  text in both): every account whose mint is tracked goes to \<^verbatim>\<open>processAccountUpdate\<close>.
\<close>

fun processAccounts :: "Monitor \<Rightarrow> TokenAccountInfo list \<Rightarrow> World \<Rightarrow> World" where
  "processAccounts m [] w = w"
| "processAccounts m (account # accounts) w =
     processAccounts m accounts
       (if shouldTrackToken m (Mint account) then processAccountUpdate m account w else w)"

text \<open>The loop of \<^verbatim>\<open>updateInitialState\<close> over the wallets: it returns at the first error.\<close>

fun updateInitialState_loop ::
  "Client \<Rightarrow> Monitor \<Rightarrow> string list \<Rightarrow> World \<Rightarrow> string option \<times> World" where
  "updateInitialState_loop c m [] w = (None, w)"
| "updateInitialState_loop c m (wallet # rest) w =
     (case GetTokenAccounts c wallet of
        Inl err \<Rightarrow> (Some err, w)
      | Inr accounts \<Rightarrow> updateInitialState_loop c m rest (processAccounts m accounts w))"

definition updateInitialState :: "Client \<Rightarrow> Monitor \<Rightarrow> World \<Rightarrow> string option \<times> World" where
  "updateInitialState c m w = updateInitialState_loop c m (wallets m) w"

text \<open>
  \<^verbatim>\<open>Start\<close>: the error of \<^verbatim>\<open>updateInitialState\<close> is returned at once; otherwise one
  subscription goroutine per wallet and the polling goroutine are started.
\<close>

definition Start :: "Client \<Rightarrow> Monitor \<Rightarrow> World \<Rightarrow> string option \<times> World" where
  "Start c m w =
     (case updateInitialState c m w of
        (Some err, w') \<Rightarrow> (Some err, w')
      | (None, w') \<Rightarrow>
          (None, w'\<lparr>goroutines := goroutines w' @ map SubscribeTask (wallets m) @ [PollTask]\<rparr>))"

text \<open>The callback that \<^verbatim>\<open>subscribeToWalletUpdates\<close> hands to the client.\<close>

definition subscribeToWalletUpdates_callback :: "Monitor \<Rightarrow> TokenAccountInfo \<Rightarrow> World \<Rightarrow> World" where
  "subscribeToWalletUpdates_callback m account w =
     (if \<not> shouldTrackToken m (Mint account) then w else processAccountUpdate m account w)"

text \<open>
  \<^verbatim>\<open>SubscribeToTokenAccountUpdates\<close>: the error it returns, if any; and what the function
  it registers with \<^verbatim>\<open>ProgramSubscribe\<close> does with one notification.
\<close>

definition SubscribeToTokenAccountUpdates :: "Client \<Rightarrow> string \<Rightarrow> string option" where
  "SubscribeToTokenAccountUpdates c walletAddress =
     (case PublicKeyFromBase58 c walletAddress of
        Inl err \<Rightarrow> Some (''invalid wallet address: '' @ err)
      | Inr pubkey \<Rightarrow>
          (case ProgramSubscribe c of
             Some err \<Rightarrow> Some (''failed to subscribe to program updates: '' @ err)
           | None \<Rightarrow> None))"

definition onProgramNotification ::
  "Client \<Rightarrow> string \<Rightarrow> (TokenAccountInfo \<Rightarrow> World \<Rightarrow> World) \<Rightarrow> ProgramNotification \<Rightarrow> World \<Rightarrow> World" where
  "onProgramNotification c walletAddress callback res w =
     (case parseTokenAccountFromSubscription c res walletAddress of
        Inl err \<Rightarrow> w
      | Inr None \<Rightarrow> w
      | Inr (Some accountInfo) \<Rightarrow> callback accountInfo w)"

text \<open>
  One tick of \<^verbatim>\<open>startPeriodicPolling\<close>: the loop over the wallets, which goes on to the
  next wallet (\<^verbatim>\<open>continue\<close>) when a fetch fails.
\<close>

fun pollWallets :: "Client \<Rightarrow> Monitor \<Rightarrow> string list \<Rightarrow> World \<Rightarrow> World" where
  "pollWallets c m [] w = w"
| "pollWallets c m (wallet # rest) w =
     (case GetTokenAccounts c wallet of
        Inl err \<Rightarrow> pollWallets c m rest w
      | Inr accounts \<Rightarrow> pollWallets c m rest (processAccounts m accounts w))"

definition pollTick :: "Client \<Rightarrow> Monitor \<Rightarrow> World \<Rightarrow> World" where
  "pollTick c m w = pollWallets c m (wallets m) w"

section \<open>Concrete inputs\<close>

text \<open>
  The inputs the closed theorems below evaluate the model at: the world before
  \<^verbatim>\<open>NewMonitor\<close> runs, a monitor with two registered handlers, the world right after
  \<^verbatim>\<open>NewMonitor\<close> (the same for every list of wallets and tokens: the new map is empty
  and sits at address 0), and token account records.
\<close>

definition world0 :: World where
  "world0 = \<lparr>heap = (\<lambda>a. DAList.empty), nextAddr = 0, goroutines = [], changes = []\<rparr>"

definition monitor0 :: "string list \<Rightarrow> string list \<Rightarrow> Monitor" where
  "monitor0 ws ts = RegisterHandler (RegisterHandler (fst (NewMonitor ws ts world0)) 0) 1"

definition world1 :: World where
  "world1 = snd (NewMonitor [] [] world0)"

definition account0 :: "string \<Rightarrow> string \<Rightarrow> string \<Rightarrow> 64 word \<Rightarrow> TokenAccountInfo" where
  "account0 addr ownr mnt bal =
     \<lparr>Address = addr, Owner = ownr, Mint = mnt, Balance = bal, Decimals = 6,
      ProgramID = ''spl-token'', LastUpdatedAt = 0\<rparr>"

text \<open>
  A client whose \<^verbatim>\<open>PublicKeyFromBase58\<close> rejects the empty string and any string with
  a colon (the base58 alphabet has none), whose RPC node answers \<open>rpc\<close>, and whose JSON
  decoder and number parser fail; one item of an RPC answer.
\<close>

definition client0 :: "(string \<Rightarrow> string + KeyedAccount list) \<Rightarrow> Client" where
  "client0 rpc =
     \<lparr>PublicKeyFromBase58 =
        (\<lambda>s. if CHR '':'' \<in> set s \<or> s = [] then Inl ''decode: invalid base58 digit'' else Inr s),
      GetTokenAccountsByOwner = rpc,
      ProgramSubscribe = None,
      TokenProgramID = ''TokenkegQfeZyiNwAJbNbGKPFXCWuBvf9Ss623VQ5DA'',
      json_Unmarshal = (\<lambda>bytes. Inl ''unexpected end of JSON input''),
      U64_SetString = (\<lambda>s. None)\<rparr>"

definition item0 :: "string \<Rightarrow> string \<Rightarrow> 64 word \<Rightarrow> KeyedAccount" where
  "item0 addr mnt bal =
     \<lparr>item_Pubkey = addr,
      item_GetJSONParsed = Some \<lparr>Parsed_Info_Mint = mnt, Data_Program = ''spl-token'',
                                TokenAmount_Amount_Uint64 = bal, TokenAmount_Decimals = 6\<rparr>,
      item_Now = 0\<rparr>"

text \<open>
  A client with a toy JSON decoder (the bytes are taken as the owner in the decoded
  account; \<^verbatim>\<open>{\<close> alone does not decode) and a notification with given bytes.
\<close>

definition client1 :: Client where
  "client1 =
     \<lparr>PublicKeyFromBase58 =
        (\<lambda>s. if CHR '':'' \<in> set s \<or> s = [] then Inl ''decode: invalid base58 digit'' else Inr s),
      GetTokenAccountsByOwner = (\<lambda>pk. Inr []),
      ProgramSubscribe = None,
      TokenProgramID = ''TokenkegQfeZyiNwAJbNbGKPFXCWuBvf9Ss623VQ5DA'',
      json_Unmarshal =
        (\<lambda>bytes. if bytes = ''{'' then Inl ''unexpected end of JSON input''
                 else Inr \<lparr>json_owner = ''TokenkegQfeZyiNwAJbNbGKPFXCWuBvf9Ss623VQ5DA'',
                           Parsed_Type = ''account'', Info_Mint = ''M1'', Info_Owner = bytes,
                           TokenAmount_Amount = ''150'', TokenAmount_Decimals8 = 6\<rparr>),
      U64_SetString = (\<lambda>s. if s = ''150'' then Some 150 else None)\<rparr>"

definition notification0 :: "string \<Rightarrow> ProgramNotification" where
  "notification0 bytes =
     \<lparr>Account_Owner = ''TokenkegQfeZyiNwAJbNbGKPFXCWuBvf9Ss623VQ5DA'', Value_Pubkey = ''T1'',
      Account_Marshal = Inr bytes, notification_Now = 0\<rparr>"

text \<open>An RPC node that refuses the request for wallet \<^verbatim>\<open>W1\<close> and answers every other.\<close>

definition rpc_W1_down :: "string \<Rightarrow> string + KeyedAccount list" where
  "rpc_W1_down pubkey =
     (if pubkey = ''W1'' then Inl ''connection refused'' else Inr [item0 ''T2'' ''M1'' 7])"

section \<open>Notions the statements use\<close>

text \<open>
  What is left of the answer of a snapshot fetch when the records whose mint the monitor
  does not track are taken out; an error stays as it is.
\<close>

definition tracked_part ::
  "Monitor \<Rightarrow> string + TokenAccountInfo list \<Rightarrow> string + TokenAccountInfo list" where
  "tracked_part m res =
     (case res of
        Inl err \<Rightarrow> Inl err
      | Inr accounts \<Rightarrow> Inr (filter (\<lambda>a. shouldTrackToken m (Mint a)) accounts))"

section \<open>Runs of the monitor\<close>

text \<open>
  The worlds a monitor can reach from a world \<open>w0\<close> through its public paths: a bootstrap
  (\<^verbatim>\<open>Start\<close>), a notification delivered to the subscription of a wallet (the goroutine
  of that subscription was started and the subscription was accepted), a tick of the
  polling goroutine (once it was started), and a call of \<^verbatim>\<open>GetCurrentState\<close>. The
  answers of the client may differ from step to step. Each step is atomic here; in the
  program the writes to the map are serialised by the mutex.
\<close>

inductive reachable :: "Monitor \<Rightarrow> World \<Rightarrow> World \<Rightarrow> bool" for m :: Monitor and w0 :: World where
  initial: "reachable m w0 w0"
| bootstrap: "reachable m w0 w \<Longrightarrow> reachable m w0 (snd (Start c m w))"
| notification:
    "reachable m w0 w \<Longrightarrow> SubscribeTask wallet \<in> set (goroutines w) \<Longrightarrow>
     SubscribeToTokenAccountUpdates c wallet = None \<Longrightarrow>
     reachable m w0 (onProgramNotification c wallet (subscribeToWalletUpdates_callback m) res w)"
| poll: "reachable m w0 w \<Longrightarrow> PollTask \<in> set (goroutines w) \<Longrightarrow> reachable m w0 (pollTick c m w)"
| read: "reachable m w0 w \<Longrightarrow> reachable m w0 (snd (GetCurrentState m w))"

text \<open>
  Three notions for the proofs: \<open>frame\<close> says that a step wrote to no map in use other
  than the monitor's own; \<open>tracked_only\<close> that the monitor's map is allocated and holds
  tracked mints only; \<open>extends\<close> that a step only appended to the log of changes and to
  the goroutines.
\<close>

definition frame :: "Monitor \<Rightarrow> World \<Rightarrow> World \<Rightarrow> bool" where
  "frame m w w' \<longleftrightarrow>
     nextAddr w \<le> nextAddr w' \<and> (\<forall>a. a < nextAddr w \<and> a \<noteq> state m \<longrightarrow> heap w' a = heap w a)"

definition tracked_only :: "Monitor \<Rightarrow> World \<Rightarrow> bool" where
  "tracked_only m w \<longleftrightarrow>
     state m < nextAddr w
     \<and> (\<forall>k r. DAList.lookup (heap w (state m)) k = Some r \<longrightarrow> shouldTrackToken m (Mint r))"

definition extends :: "World \<Rightarrow> World \<Rightarrow> bool" where
  "extends w w' \<longleftrightarrow>
     (\<exists>cs gs. changes w' = changes w @ cs \<and> goroutines w' = goroutines w @ gs)"

section \<open>Basic facts\<close>

lemma monitor0_simps:
  "wallets (monitor0 ws ts) = ws" "tokens (monitor0 ws ts) = ts"
  "handlers (monitor0 ws ts) = [0, 1]" "state (monitor0 ws ts) = 0"
  by (simp_all add: monitor0_def NewMonitor_def make_map_def RegisterHandler_def world0_def)

lemma world1_simps:
  "heap world1 = (\<lambda>a. DAList.empty)" "nextAddr world1 = 1" "goroutines world1 = []"
  "changes world1 = []"
  by (auto simp add: world1_def NewMonitor_def make_map_def world0_def)

lemma heap_processAccountUpdate:
  "heap (processAccountUpdate m account w) =
     (heap w)(state m := DAList.update (account_key account) account (heap w (state m)))"
  by (simp add: processAccountUpdate_def Let_def)

lemma nextAddr_processAccountUpdate [simp]:
  "nextAddr (processAccountUpdate m account w) = nextAddr w"
  by (simp add: processAccountUpdate_def Let_def)

lemma changes_processAccountUpdate:
  "changes (processAccountUpdate m account w) =
     changes w @ (if balanceChanged (DAList.lookup (heap w (state m)) (account_key account)) account
                  then [account] else [])"
  by (simp add: processAccountUpdate_def Let_def)

lemma goroutines_processAccountUpdate:
  "goroutines (processAccountUpdate m account w) =
     goroutines w @ (if balanceChanged (DAList.lookup (heap w (state m)) (account_key account)) account
                  then notify_handlers m account else [])"
  by (simp add: processAccountUpdate_def Let_def)

lemma heap_processAccountUpdate_other:
  "a \<noteq> state m \<Longrightarrow> heap (processAccountUpdate m account w) a = heap w a"
  by (simp add: heap_processAccountUpdate)

lemma lookup_processAccountUpdate:
  "DAList.lookup (heap (processAccountUpdate m account w) (state m)) k =
     (if k = account_key account then Some account else DAList.lookup (heap w (state m)) k)"
  by (simp add: heap_processAccountUpdate DAList.lookup_update)

lemma shouldTrackToken_iff:
  "shouldTrackToken m mint \<longleftrightarrow> tokens m = [] \<or> mint \<in> set (tokens m)"
proof -
  have "token_in_list ts mint \<longleftrightarrow> mint \<in> set ts" for ts
    by (induction ts) auto
  then show ?thesis by (auto simp: shouldTrackToken_def)
qed

lemma processAccounts_fold:
  "processAccounts m accounts w =
     fold (processAccountUpdate m) (filter (\<lambda>a. shouldTrackToken m (Mint a)) accounts) w"
  by (induction accounts arbitrary: w) auto

lemma processAccounts_append:
  "processAccounts m (xs @ ys) w = processAccounts m ys (processAccounts m xs w)"
  by (simp add: processAccounts_fold)

section \<open>The update path: change detection\<close>




text \<open>
  C7. Applying the same record twice in a row: the second application declares no change
  (the lookup finds the record just stored, with the same balance), and it leaves the
  whole world as the first application left it, the stored record included.
\<close>

theorem processAccountUpdate_twice:
  "balanceChanged
     (DAList.lookup (heap (processAccountUpdate m account w) (state m)) (account_key account))
     account = False
   \<and> processAccountUpdate m account (processAccountUpdate m account w)
       = processAccountUpdate m account w
   \<and> DAList.lookup
       (heap (processAccountUpdate m account (processAccountUpdate m account w)) (state m))
       (account_key account) = Some account"
  by (simp add: processAccountUpdate_def Let_def balanceChanged_def)

section \<open>The update path: what an update leaves alone\<close>








section \<open>The mint filter\<close>

lemma updateInitialState_loop_tracked:
  "\<forall>wl \<in> set ws. tracked_part m (GetTokenAccounts c wl) = tracked_part m (GetTokenAccounts c' wl)
   \<Longrightarrow> updateInitialState_loop c m ws w = updateInitialState_loop c' m ws w"
proof (induction ws arbitrary: w)
  case Nil
  then show ?case by simp
next
  case (Cons wl ws)
  then have eq: "tracked_part m (GetTokenAccounts c wl) = tracked_part m (GetTokenAccounts c' wl)"
    and rest: "\<And>w. updateInitialState_loop c m ws w = updateInitialState_loop c' m ws w"
    by simp_all
  from eq show ?case
    by (cases "GetTokenAccounts c wl"; cases "GetTokenAccounts c' wl")
       (simp_all add: tracked_part_def rest processAccounts_fold)
qed

lemma pollWallets_tracked:
  "\<forall>wl \<in> set ws. tracked_part m (GetTokenAccounts c wl) = tracked_part m (GetTokenAccounts c' wl)
   \<Longrightarrow> pollWallets c m ws w = pollWallets c' m ws w"
proof (induction ws arbitrary: w)
  case Nil
  then show ?case by simp
next
  case (Cons wl ws)
  then have eq: "tracked_part m (GetTokenAccounts c wl) = tracked_part m (GetTokenAccounts c' wl)"
    and rest: "\<And>w. pollWallets c m ws w = pollWallets c' m ws w"
    by simp_all
  from eq show ?case
    by (cases "GetTokenAccounts c wl"; cases "GetTokenAccounts c' wl")
       (simp_all add: tracked_part_def rest processAccounts_fold)
qed

lemma GetTokenAccounts_client0:
  "GetTokenAccounts (client0 rpc) ''A'' = map_sum (\<lambda>e. ''failed to get token accounts: '' @ e) (tokenAccountsOf ''A'') (rpc ''A'')"
  by (cases "rpc ''A''") (simp_all add: GetTokenAccounts_def client0_def)


text \<open>
  C6. A record whose mint is not tracked (the token list is not empty and does not hold
  the mint) is discarded on every ingestion path: the subscription callback leaves the
  world as it is (no store write, no notification), and the loop over a snapshot behaves
  as if the record were not in the snapshot, wherever it stands in it. Hence two snapshot
  sources that differ only in untracked records give the same bootstrap and the same poll
  tick. When the token list is empty, every mint is tracked.
\<close>

theorem untracked_discarded:
  "(tokens m \<noteq> [] \<and> Mint account \<notin> set (tokens m) \<longrightarrow>
        \<not> shouldTrackToken m (Mint account)
      \<and> subscribeToWalletUpdates_callback m account w = w
      \<and> processAccounts m (xs @ account # ys) w = processAccounts m (xs @ ys) w)
   \<and> ((\<forall>wl \<in> set (wallets m).
          tracked_part m (GetTokenAccounts c wl) = tracked_part m (GetTokenAccounts c' wl)) \<longrightarrow>
        Start c m w = Start c' m w \<and> pollTick c m w = pollTick c' m w)
   \<and> (tokens m = [] \<longrightarrow> shouldTrackToken m mint)"
proof -
  have a: "\<not> shouldTrackToken m (Mint account)
      \<and> subscribeToWalletUpdates_callback m account w = w
      \<and> processAccounts m (xs @ account # ys) w = processAccounts m (xs @ ys) w"
    if "tokens m \<noteq> []" "Mint account \<notin> set (tokens m)"
  proof -
    from that have no: "\<not> shouldTrackToken m (Mint account)"
      by (simp add: shouldTrackToken_iff)
    then show ?thesis
      by (simp add: subscribeToWalletUpdates_callback_def processAccounts_fold)
  qed
  have b: "Start c m w = Start c' m w \<and> pollTick c m w = pollTick c' m w"
    if "\<forall>wl \<in> set (wallets m).
          tracked_part m (GetTokenAccounts c wl) = tracked_part m (GetTokenAccounts c' wl)"
    using updateInitialState_loop_tracked[OF that] pollWallets_tracked[OF that]
    by (simp add: Start_def updateInitialState_def pollTick_def)
  have c: "shouldTrackToken m mint" if "tokens m = []"
    using that by (simp add: shouldTrackToken_iff)
  from a b c show ?thesis by blast
qed

theorem untracked_discarded_witness:
  "tokens (monitor0 [''A''] [''mintX'']) \<noteq> []
   \<and> Mint (account0 ''T2'' ''A'' ''mintY'' 7) \<notin> set (tokens (monitor0 [''A''] [''mintX'']))
   \<and> subscribeToWalletUpdates_callback (monitor0 [''A''] [''mintX''])
        (account0 ''T2'' ''A'' ''mintY'' 7) world1 = world1
   \<and> processAccounts (monitor0 [''A''] [''mintX''])
        [account0 ''T1'' ''A'' ''mintX'' 5, account0 ''T2'' ''A'' ''mintY'' 7] world1
      = processAccounts (monitor0 [''A''] [''mintX'']) [account0 ''T1'' ''A'' ''mintX'' 5] world1
   \<and> Start (client0 (\<lambda>pk. Inr [item0 ''T1'' ''mintX'' 5, item0 ''T2'' ''mintY'' 7]))
        (monitor0 [''A''] [''mintX'']) world1
      = Start (client0 (\<lambda>pk. Inr [item0 ''T1'' ''mintX'' 5])) (monitor0 [''A''] [''mintX'']) world1
   \<and> tokens (monitor0 [''A''] []) = []
   \<and> shouldTrackToken (monitor0 [''A''] []) ''mintY''"
proof -
  let ?m = "monitor0 [''A''] [''mintX'']"
  let ?c = "client0 (\<lambda>pk. Inr [item0 ''T1'' ''mintX'' 5, item0 ''T2'' ''mintY'' 7])"
  let ?c' = "client0 (\<lambda>pk. Inr [item0 ''T1'' ''mintX'' 5])"
  have h1: "tokens ?m \<noteq> []" and h2: "Mint (account0 ''T2'' ''A'' ''mintY'' 7) \<notin> set (tokens ?m)"
    by (simp_all add: monitor0_simps account0_def)
  have h3: "\<forall>wl \<in> set (wallets ?m).
          tracked_part ?m (GetTokenAccounts ?c wl) = tracked_part ?m (GetTokenAccounts ?c' wl)"
    by (simp add: monitor0_simps GetTokenAccounts_client0 tracked_part_def item0_def
          shouldTrackToken_iff)
  have h4: "tokens (monitor0 [''A''] []) = []" by (simp add: monitor0_simps)
  from untracked_discarded [of ?m "account0 ''T2'' ''A'' ''mintY'' 7" world1
      "[account0 ''T1'' ''A'' ''mintX'' 5]" "[]" ?c ?c' "''mintY''"] h1 h2 h3
  have "subscribeToWalletUpdates_callback ?m (account0 ''T2'' ''A'' ''mintY'' 7) world1 = world1
     \<and> processAccounts ?m [account0 ''T1'' ''A'' ''mintX'' 5, account0 ''T2'' ''A'' ''mintY'' 7] world1
        = processAccounts ?m [account0 ''T1'' ''A'' ''mintX'' 5] world1
     \<and> Start ?c ?m world1 = Start ?c' ?m world1"
    by simp
  moreover from untracked_discarded [of "monitor0 [''A''] []" "account0 ''T2'' ''A'' ''mintY'' 7"
      world1 "[]" "[]" ?c ?c' "''mintY''"] h4
  have "shouldTrackToken (monitor0 [''A''] []) ''mintY''" by blast
  ultimately show ?thesis using h1 h2 h4 by simp
qed

section \<open>The subscription path\<close>

text \<open>
  C9. For every notification delivered to the subscription of a wallet: the record is
  handed to the callback (for the monitor, the update path behind the mint filter) only
  when the notification decodes and the decoded owner equals the wallet, and the record
  then carries that wallet as its owner. A notification that does not decode (marshalling,
  unmarshalling or the amount fails) or whose decoded owner is another wallet leaves the
  world as it is: no record, no store write, no handler started.
\<close>

theorem subscription_owner_filter:
  "(\<forall>bytes ta amount.
       Account_Owner res = TokenProgramID c \<and> Account_Marshal res = Inr bytes
       \<and> json_Unmarshal c bytes = Inr ta \<and> Info_Owner ta = wallet
       \<and> U64_SetString c (TokenAmount_Amount ta) = Some amount \<longrightarrow>
       onProgramNotification c wallet callback res w
         = callback \<lparr>Address = Value_Pubkey res, Owner = wallet, Mint = Info_Mint ta,
                     Balance = amount, Decimals = TokenAmount_Decimals8 ta, ProgramID = [],
                     LastUpdatedAt = notification_Now res\<rparr> w)
   \<and> (\<forall>a. parseTokenAccountFromSubscription c res wallet = Inr (Some a) \<longrightarrow>
          Owner a = wallet
        \<and> (\<exists>bytes ta. Account_Marshal res = Inr bytes \<and> json_Unmarshal c bytes = Inr ta
               \<and> Info_Owner ta = wallet)
        \<and> onProgramNotification c wallet callback res w = callback a w)
   \<and> ((\<forall>a. parseTokenAccountFromSubscription c res wallet \<noteq> Inr (Some a)) \<longrightarrow>
          onProgramNotification c wallet callback res w = w)
   \<and> (\<forall>bytes ta. Account_Marshal res = Inr bytes \<and> json_Unmarshal c bytes = Inr ta
          \<and> Info_Owner ta \<noteq> wallet \<longrightarrow>
          onProgramNotification c wallet callback res w = w)
   \<and> ((\<exists>e. Account_Marshal res = Inl e)
        \<or> (\<exists>bytes e. Account_Marshal res = Inr bytes \<and> json_Unmarshal c bytes = Inl e)
        \<or> (\<exists>bytes ta. Account_Marshal res = Inr bytes \<and> json_Unmarshal c bytes = Inr ta
              \<and> U64_SetString c (TokenAmount_Amount ta) = None) \<longrightarrow>
          onProgramNotification c wallet callback res w = w)"
proof -
  have fwd: "onProgramNotification c wallet callback res w
         = callback \<lparr>Address = Value_Pubkey res, Owner = wallet, Mint = Info_Mint ta,
                     Balance = amount, Decimals = TokenAmount_Decimals8 ta, ProgramID = [],
                     LastUpdatedAt = notification_Now res\<rparr> w"
    if "Account_Owner res = TokenProgramID c" "Account_Marshal res = Inr bytes"
       "json_Unmarshal c bytes = Inr ta" "Info_Owner ta = wallet"
       "U64_SetString c (TokenAmount_Amount ta) = Some amount" for bytes ta amount
    using that by (simp add: onProgramNotification_def parseTokenAccountFromSubscription_def)
  have parsed: "Owner a = wallet
        \<and> (\<exists>bytes ta. Account_Marshal res = Inr bytes \<and> json_Unmarshal c bytes = Inr ta
               \<and> Info_Owner ta = wallet)
        \<and> onProgramNotification c wallet callback res w = callback a w"
    if "parseTokenAccountFromSubscription c res wallet = Inr (Some a)" for a
    using that
    by (auto simp add: onProgramNotification_def parseTokenAccountFromSubscription_def
          split: if_splits sum.splits option.splits)
  have dropped: "onProgramNotification c wallet callback res w = w"
    if "\<forall>a. parseTokenAccountFromSubscription c res wallet \<noteq> Inr (Some a)"
    using that by (simp add: onProgramNotification_def split: sum.splits option.splits)
  have other: "onProgramNotification c wallet callback res w = w"
    if "Account_Marshal res = Inr bytes" "json_Unmarshal c bytes = Inr ta" "Info_Owner ta \<noteq> wallet"
    for bytes ta
    using that by (simp add: onProgramNotification_def parseTokenAccountFromSubscription_def)
  have malformed: "onProgramNotification c wallet callback res w = w"
    if "(\<exists>e. Account_Marshal res = Inl e)
        \<or> (\<exists>bytes e. Account_Marshal res = Inr bytes \<and> json_Unmarshal c bytes = Inl e)
        \<or> (\<exists>bytes ta. Account_Marshal res = Inr bytes \<and> json_Unmarshal c bytes = Inr ta
              \<and> U64_SetString c (TokenAmount_Amount ta) = None)"
    using that
    by (auto simp add: onProgramNotification_def parseTokenAccountFromSubscription_def)
  show ?thesis
    apply (intro conjI allI impI)
    subgoal for bytes ta amount using fwd by blast
    subgoal for a using parsed by blast
    subgoal for a using parsed by blast
    subgoal for a using parsed by blast
    subgoal using dropped by blast
    subgoal for bytes ta using other by blast
    subgoal using malformed by blast
    done
qed


theorem subscription_owner_filter_witness:
  "onProgramNotification client1 ''A'' (subscribeToWalletUpdates_callback (monitor0 [''A''] []))
       (notification0 ''A'') world1
     = processAccountUpdate (monitor0 [''A''] [])
         \<lparr>Address = ''T1'', Owner = ''A'', Mint = ''M1'', Balance = 150, Decimals = 6,
          ProgramID = [], LastUpdatedAt = 0\<rparr> world1
   \<and> json_Unmarshal client1 ''B'' =
        Inr \<lparr>json_owner = ''TokenkegQfeZyiNwAJbNbGKPFXCWuBvf9Ss623VQ5DA'',
             Parsed_Type = ''account'', Info_Mint = ''M1'', Info_Owner = ''B'',
             TokenAmount_Amount = ''150'', TokenAmount_Decimals8 = 6\<rparr>
   \<and> onProgramNotification client1 ''A'' (subscribeToWalletUpdates_callback (monitor0 [''A''] []))
       (notification0 ''B'') world1 = world1
   \<and> json_Unmarshal client1 ''{'' = Inl ''unexpected end of JSON input''
   \<and> onProgramNotification client1 ''A'' (subscribeToWalletUpdates_callback (monitor0 [''A''] []))
       (notification0 ''{'') world1 = world1"
proof -
  let ?cb = "subscribeToWalletUpdates_callback (monitor0 [''A''] [])"
  let ?ta = "\<lambda>ownr. \<lparr>json_owner = ''TokenkegQfeZyiNwAJbNbGKPFXCWuBvf9Ss623VQ5DA'',
             Parsed_Type = ''account'', Info_Mint = ''M1'', Info_Owner = ownr,
             TokenAmount_Amount = ''150'', TokenAmount_Decimals8 = 6\<rparr>"
  have own: "Account_Owner (notification0 b) = TokenProgramID client1" for b
    by (simp add: notification0_def client1_def)
  have bytes: "Account_Marshal (notification0 b) = Inr b" for b
    by (simp add: notification0_def)
  have decA: "json_Unmarshal client1 ''A'' = Inr (?ta ''A'')"
    and decB: "json_Unmarshal client1 ''B'' = Inr (?ta ''B'')"
    and decBad: "json_Unmarshal client1 ''{'' = Inl ''unexpected end of JSON input''"
    by (simp_all add: client1_def)
  have amount: "U64_SetString client1 (TokenAmount_Amount (?ta ''A'')) = Some 150"
    by (simp add: client1_def)
  have "onProgramNotification client1 ''A'' ?cb (notification0 ''A'') world1
         = ?cb \<lparr>Address = Value_Pubkey (notification0 ''A''), Owner = ''A'',
                Mint = Info_Mint (?ta ''A''), Balance = 150,
                Decimals = TokenAmount_Decimals8 (?ta ''A''), ProgramID = [],
                LastUpdatedAt = notification_Now (notification0 ''A'')\<rparr> world1"
    using subscription_owner_filter [of "notification0 ''A''" client1 "''A''" ?cb world1]
      own bytes decA amount by simp
  then have 1: "onProgramNotification client1 ''A'' ?cb (notification0 ''A'') world1
     = processAccountUpdate (monitor0 [''A''] [])
         \<lparr>Address = ''T1'', Owner = ''A'', Mint = ''M1'', Balance = 150, Decimals = 6,
          ProgramID = [], LastUpdatedAt = 0\<rparr> world1"
    by (simp add: subscribeToWalletUpdates_callback_def shouldTrackToken_iff monitor0_simps
          notification0_def)
  have 2: "onProgramNotification client1 ''A'' ?cb (notification0 ''B'') world1 = world1"
    using subscription_owner_filter [of "notification0 ''B''" client1 "''A''" ?cb world1]
      bytes decB by simp
  have 3: "onProgramNotification client1 ''A'' ?cb (notification0 ''{'') world1 = world1"
    using subscription_owner_filter [of "notification0 ''{''" client1 "''A''" ?cb world1]
      bytes decBad by simp
  from 1 2 3 decB decBad show ?thesis by simp
qed

section \<open>Reading the state\<close>

lemma update_fresh:
  "k \<notin> fst ` set al \<Longrightarrow> AList.update k v al = al @ [(k, v)]"
  by (induction al) auto

lemma impl_of_fold_update:
  "distinct (map fst (DAList.impl_of acc @ xs)) \<Longrightarrow>
   DAList.impl_of (fold (\<lambda>(k, v) c. DAList.update k v c) xs acc) = DAList.impl_of acc @ xs"
proof (induction xs arbitrary: acc)
  case Nil
  then show ?case by simp
next
  case (Cons x xs)
  obtain k v where x: "x = (k, v)" by (cases x)
  from Cons.prems x have fresh: "k \<notin> fst ` set (DAList.impl_of acc)" by auto
  have step: "DAList.impl_of (DAList.update k v acc) = DAList.impl_of acc @ [(k, v)]"
    by (simp add: DAList.update.rep_eq update_fresh fresh)
  from Cons.prems x have "distinct (map fst (DAList.impl_of (DAList.update k v acc) @ xs))"
    by (simp add: step)
  from Cons.IH[OF this] show ?case by (simp add: x step)
qed

lemma copy_loop:
  "fold (\<lambda>(k, v) c. DAList.update k v c) (DAList.impl_of st) DAList.empty = st"
  by (rule DAList.alist_ext) (simp add: impl_of_fold_update DAList.empty.rep_eq)

lemma GetCurrentState_eq:
  "state m \<noteq> nextAddr w \<Longrightarrow>
   GetCurrentState m w =
     (nextAddr w, w\<lparr>heap := (heap w)(nextAddr w := heap w (state m)), nextAddr := Suc (nextAddr w)\<rparr>)"
  by (simp add: GetCurrentState_def make_map_def copy_loop)

text \<open>Every operation writes to the monitor's own map or to a new address only.\<close>

lemma frame_refl: "frame m w w"
  by (simp add: frame_def)

lemma frame_trans: "frame m w w1 \<Longrightarrow> frame m w1 w2 \<Longrightarrow> frame m w w2"
  by (auto simp add: frame_def)

lemma frame_processAccountUpdate: "frame m w (processAccountUpdate m account w)"
  by (simp add: frame_def heap_processAccountUpdate)

lemma frame_processAccounts: "frame m w (processAccounts m accounts w)"
proof (induction accounts arbitrary: w)
  case Nil
  show ?case by (simp add: frame_refl)
next
  case (Cons a accounts)
  show ?case
    using frame_trans[OF frame_processAccountUpdate Cons.IH] Cons.IH by simp
qed

lemma frame_updateInitialState_loop: "frame m w (snd (updateInitialState_loop c m ws w))"
proof (induction ws arbitrary: w)
  case Nil
  show ?case by (simp add: frame_refl)
next
  case (Cons wl ws)
  show ?case
    using frame_trans[OF frame_processAccounts Cons.IH]
    by (cases "GetTokenAccounts c wl") (simp_all add: frame_refl)
qed

lemma frame_pollWallets: "frame m w (pollWallets c m ws w)"
proof (induction ws arbitrary: w)
  case Nil
  show ?case by (simp add: frame_refl)
next
  case (Cons wl ws)
  show ?case
    using frame_trans[OF frame_processAccounts Cons.IH] Cons.IH
    by (cases "GetTokenAccounts c wl") simp_all
qed

lemma frame_Start: "frame m w (snd (Start c m w))"
proof -
  have "frame m w (snd (updateInitialState c m w))"
    by (simp add: updateInitialState_def frame_updateInitialState_loop)
  then show ?thesis
    by (cases "updateInitialState c m w") (auto simp add: Start_def frame_def split: option.splits)
qed

lemma frame_callback: "frame m w (subscribeToWalletUpdates_callback m account w)"
  by (simp add: subscribeToWalletUpdates_callback_def frame_refl frame_processAccountUpdate)

lemma frame_onProgramNotification:
  "frame m w (onProgramNotification c wallet (subscribeToWalletUpdates_callback m) res w)"
  by (simp add: onProgramNotification_def frame_refl frame_callback split: sum.splits option.splits)

lemma frame_GetCurrentState: "state m < nextAddr w \<Longrightarrow> frame m w (snd (GetCurrentState m w))"
  by (simp add: GetCurrentState_eq frame_def)

lemma reachable_frame:
  "reachable m w0 w \<Longrightarrow> state m < nextAddr w0 \<Longrightarrow> frame m w0 w"
proof (induction rule: reachable.induct)
  case initial
  show ?case by (rule frame_refl)
next
  case (bootstrap w c)
  then show ?case using frame_trans frame_Start by blast
next
  case (notification w wallet c res)
  then show ?case using frame_trans frame_onProgramNotification by blast
next
  case (poll w c)
  then show ?case using frame_trans[OF _ frame_pollWallets] by (simp add: pollTick_def)
next
  case (read w)
  then have f: "frame m w0 w" by simp
  with read.prems have "state m < nextAddr w" by (simp add: frame_def)
  from frame_trans[OF f frame_GetCurrentState[OF this]] show ?case .
qed

text \<open>
  C5. \<^verbatim>\<open>GetCurrentState\<close>, called when the monitor's map is allocated, returns a new
  map, at an address other than the monitor's, with the entries the monitor's map has at
  that moment, and leaves the monitor's map as it is. Writing anything to the returned map
  does not change the monitor's map; and no later update of the store (a direct call of
  the update path, or any run of bootstrap, notifications, poll ticks and further reads)
  changes the returned map.
\<close>

theorem GetCurrentState_independent_copy:
  assumes "state m < nextAddr w"
  shows "fst (GetCurrentState m w) \<noteq> state m
     \<and> heap (snd (GetCurrentState m w)) (fst (GetCurrentState m w)) = heap w (state m)
     \<and> heap (snd (GetCurrentState m w)) (state m) = heap w (state m)
     \<and> (\<forall>st. heap ((snd (GetCurrentState m w))
                  \<lparr>heap := (heap (snd (GetCurrentState m w)))(fst (GetCurrentState m w) := st)\<rparr>)
               (state m) = heap w (state m))
     \<and> (\<forall>account. heap (processAccountUpdate m account (snd (GetCurrentState m w)))
               (fst (GetCurrentState m w)) = heap w (state m))
     \<and> (\<forall>w'. reachable m (snd (GetCurrentState m w)) w' \<longrightarrow>
               heap w' (fst (GetCurrentState m w)) = heap w (state m))"
proof -
  let ?copy = "fst (GetCurrentState m w)" and ?w1 = "snd (GetCurrentState m w)"
  from assms have ne: "state m \<noteq> nextAddr w" by simp
  have copy: "?copy = nextAddr w" and next1: "nextAddr ?w1 = Suc (nextAddr w)"
    and heap1: "heap ?w1 = (heap w)(nextAddr w := heap w (state m))"
    by (simp_all add: GetCurrentState_eq[OF ne])
  have later: "heap w' ?copy = heap w (state m)" if "reachable m ?w1 w'" for w'
  proof -
    from assms next1 have "state m < nextAddr ?w1" by simp
    from reachable_frame[OF that this] have "heap w' ?copy = heap ?w1 ?copy"
      using ne by (simp add: frame_def copy next1)
    then show ?thesis by (simp add: heap1 copy)
  qed
  show ?thesis
    using ne later by (simp add: copy heap1 heap_processAccountUpdate)
qed

theorem GetCurrentState_independent_copy_witness:
  "state (monitor0 [''A''] []) < nextAddr (processAccountUpdate (monitor0 [''A''] [])
       (account0 ''T1'' ''A'' ''M1'' 100) world1)
   \<and> DAList.lookup
        (heap (processAccountUpdate (monitor0 [''A''] []) (account0 ''T1'' ''A'' ''M1'' 150)
                 (snd (GetCurrentState (monitor0 [''A''] [])
                    (processAccountUpdate (monitor0 [''A''] []) (account0 ''T1'' ''A'' ''M1'' 100) world1))))
           (fst (GetCurrentState (monitor0 [''A''] [])
                    (processAccountUpdate (monitor0 [''A''] []) (account0 ''T1'' ''A'' ''M1'' 100) world1))))
        ''A:M1''
      = Some (account0 ''T1'' ''A'' ''M1'' 100)
   \<and> DAList.lookup
        (heap (processAccountUpdate (monitor0 [''A''] []) (account0 ''T1'' ''A'' ''M1'' 150)
                 (snd (GetCurrentState (monitor0 [''A''] [])
                    (processAccountUpdate (monitor0 [''A''] []) (account0 ''T1'' ''A'' ''M1'' 100) world1))))
           (state (monitor0 [''A''] [])))
        ''A:M1''
      = Some (account0 ''T1'' ''A'' ''M1'' 150)"
proof -
  let ?m = "monitor0 [''A''] []"
  let ?w = "processAccountUpdate ?m (account0 ''T1'' ''A'' ''M1'' 100) world1"
  have h: "state ?m < nextAddr ?w" by (simp add: monitor0_simps world1_simps)
  have k: "account_key (account0 ''T1'' ''A'' ''M1'' b) = ''A:M1''" for b
    by (simp add: account_key_def account0_def)
  have old: "DAList.lookup (heap ?w (state ?m)) ''A:M1'' = Some (account0 ''T1'' ''A'' ''M1'' 100)"
    using lookup_processAccountUpdate[of ?m "account0 ''T1'' ''A'' ''M1'' 100" world1 "''A:M1''"]
    by (simp add: k)
  have new: "DAList.lookup
        (heap (processAccountUpdate ?m (account0 ''T1'' ''A'' ''M1'' 150) (snd (GetCurrentState ?m ?w)))
           (state ?m)) ''A:M1'' = Some (account0 ''T1'' ''A'' ''M1'' 150)"
    using lookup_processAccountUpdate[of ?m "account0 ''T1'' ''A'' ''M1'' 150"
        "snd (GetCurrentState ?m ?w)" "''A:M1''"]
    by (simp add: k)
  from GetCurrentState_independent_copy[OF h]
  have "heap (processAccountUpdate ?m (account0 ''T1'' ''A'' ''M1'' 150) (snd (GetCurrentState ?m ?w)))
          (fst (GetCurrentState ?m ?w)) = heap ?w (state ?m)"
    by blast
  with old new h show ?thesis by simp
qed

section \<open>The invariant of the mint filter\<close>

lemma tracked_only_processAccountUpdate:
  "tracked_only m w \<Longrightarrow> shouldTrackToken m (Mint account) \<Longrightarrow>
   tracked_only m (processAccountUpdate m account w)"
  by (auto simp add: tracked_only_def lookup_processAccountUpdate split: if_splits)

lemma tracked_only_processAccounts:
  "tracked_only m w \<Longrightarrow> tracked_only m (processAccounts m accounts w)"
  by (induction accounts arbitrary: w) (simp_all add: tracked_only_processAccountUpdate)

lemma tracked_only_updateInitialState_loop:
  "tracked_only m w \<Longrightarrow> tracked_only m (snd (updateInitialState_loop c m ws w))"
proof (induction ws arbitrary: w)
  case Nil
  then show ?case by simp
next
  case (Cons wl ws)
  then show ?case
    by (cases "GetTokenAccounts c wl") (simp_all add: tracked_only_processAccounts)
qed

lemma tracked_only_pollWallets:
  "tracked_only m w \<Longrightarrow> tracked_only m (pollWallets c m ws w)"
proof (induction ws arbitrary: w)
  case Nil
  then show ?case by simp
next
  case (Cons wl ws)
  then show ?case
    by (cases "GetTokenAccounts c wl") (simp_all add: tracked_only_processAccounts)
qed

lemma tracked_only_Start: "tracked_only m w \<Longrightarrow> tracked_only m (snd (Start c m w))"
proof -
  assume "tracked_only m w"
  then have "tracked_only m (snd (updateInitialState c m w))"
    by (simp add: updateInitialState_def tracked_only_updateInitialState_loop)
  then show ?thesis
    by (cases "updateInitialState c m w")
       (auto simp add: Start_def tracked_only_def split: option.splits)
qed

lemma tracked_only_onProgramNotification:
  "tracked_only m w \<Longrightarrow>
   tracked_only m (onProgramNotification c wallet (subscribeToWalletUpdates_callback m) res w)"
  by (simp add: onProgramNotification_def subscribeToWalletUpdates_callback_def
        tracked_only_processAccountUpdate split: sum.splits option.splits)

lemma tracked_only_GetCurrentState:
  "tracked_only m w \<Longrightarrow> tracked_only m (snd (GetCurrentState m w))"
  by (simp add: tracked_only_def GetCurrentState_eq)

lemma reachable_tracked_only:
  "reachable m w0 w \<Longrightarrow> tracked_only m w0 \<Longrightarrow> tracked_only m w"
proof (induction rule: reachable.induct)
  case initial
  then show ?case .
next
  case (bootstrap w c)
  then show ?case by (simp add: tracked_only_Start)
next
  case (notification w wallet c res)
  then show ?case by (simp add: tracked_only_onProgramNotification)
next
  case (poll w c)
  then show ?case by (simp add: pollTick_def tracked_only_pollWallets)
next
  case (read w)
  then show ?case by (simp add: tracked_only_GetCurrentState)
qed

lemma foldl_RegisterHandler:
  "foldl RegisterHandler m hs = m\<lparr>handlers := handlers m @ hs\<rparr>"
  by (induction hs arbitrary: m) (simp_all add: RegisterHandler_def)

lemma tracked_only_NewMonitor:
  "tracked_only (foldl RegisterHandler (fst (NewMonitor ws ts w0)) hs) (snd (NewMonitor ws ts w0))"
  by (simp add: tracked_only_def foldl_RegisterHandler NewMonitor_def make_map_def)

text \<open>
  C10. For a monitor made by \<^verbatim>\<open>NewMonitor\<close> and any number of \<^verbatim>\<open>RegisterHandler\<close>
  calls, in every world reachable through bootstrap, subscription notifications, poll ticks
  and reads, every record in the state map has a mint the filter accepts: the token list is
  empty or holds the mint. The same is true of every record in the map that
  \<^verbatim>\<open>GetCurrentState\<close> returns there.
\<close>

theorem state_holds_tracked_mints_only:
  assumes "m = foldl RegisterHandler (fst (NewMonitor ws ts w0)) hs"
    and "reachable m (snd (NewMonitor ws ts w0)) w"
  shows "(\<forall>k r. DAList.lookup (heap w (state m)) k = Some r \<longrightarrow>
            tokens m = [] \<or> Mint r \<in> set (tokens m))
       \<and> (\<forall>k r. DAList.lookup (heap (snd (GetCurrentState m w)) (fst (GetCurrentState m w))) k
                  = Some r \<longrightarrow>
            tokens m = [] \<or> Mint r \<in> set (tokens m))"
proof -
  from assms have inv: "tracked_only m w"
    using reachable_tracked_only tracked_only_NewMonitor by blast
  then have ne: "state m \<noteq> nextAddr w" by (simp add: tracked_only_def)
  from inv show ?thesis
    by (simp add: GetCurrentState_eq[OF ne] tracked_only_def shouldTrackToken_iff)
qed


theorem state_holds_tracked_mints_only_witness:
  "monitor0 [''A''] [''mintX''] = foldl RegisterHandler (fst (NewMonitor [''A''] [''mintX''] world0)) [0, 1]
   \<and> reachable (monitor0 [''A''] [''mintX'']) (snd (NewMonitor [''A''] [''mintX''] world0))
        (snd (Start (client0 (\<lambda>pk. Inr [item0 ''T1'' ''mintX'' 5, item0 ''T2'' ''mintY'' 7]))
               (monitor0 [''A''] [''mintX'']) (snd (NewMonitor [''A''] [''mintX''] world0))))
   \<and> DAList.lookup
        (heap (snd (Start (client0 (\<lambda>pk. Inr [item0 ''T1'' ''mintX'' 5, item0 ''T2'' ''mintY'' 7]))
               (monitor0 [''A''] [''mintX'']) (snd (NewMonitor [''A''] [''mintX''] world0))))
           (state (monitor0 [''A''] [''mintX''])))
        ''A:mintX''
      = Some (account0 ''T1'' ''A'' ''mintX'' 5)
   \<and> Mint (account0 ''T1'' ''A'' ''mintX'' 5) \<in> set (tokens (monitor0 [''A''] [''mintX'']))
   \<and> DAList.lookup
        (heap (snd (Start (client0 (\<lambda>pk. Inr [item0 ''T1'' ''mintX'' 5, item0 ''T2'' ''mintY'' 7]))
               (monitor0 [''A''] [''mintX'']) (snd (NewMonitor [''A''] [''mintX''] world0))))
           (state (monitor0 [''A''] [''mintX''])))
        ''A:mintY''
      = None"
proof -
  let ?m = "monitor0 [''A''] [''mintX'']"
  let ?c = "client0 (\<lambda>pk. Inr [item0 ''T1'' ''mintX'' 5, item0 ''T2'' ''mintY'' 7])"
  let ?w1 = "snd (NewMonitor [''A''] [''mintX''] world0)"
  let ?w = "snd (Start ?c ?m ?w1)"
  have m: "?m = foldl RegisterHandler (fst (NewMonitor [''A''] [''mintX''] world0)) [0, 1]"
    by (simp add: monitor0_def)
  have r: "reachable ?m ?w1 ?w"
    by (rule reachable.bootstrap) (rule reachable.initial)
  have w1: "?w1 = world1"
    by (simp add: world1_def NewMonitor_def make_map_def)
  have accts: "GetTokenAccounts ?c ''A''
      = Inr [account0 ''T1'' ''A'' ''mintX'' 5, account0 ''T2'' ''A'' ''mintY'' 7]"
    by (simp add: GetTokenAccounts_client0 item0_def account0_def)
  have start: "?w = (processAccountUpdate ?m (account0 ''T1'' ''A'' ''mintX'' 5) world1)
      \<lparr>goroutines := goroutines (processAccountUpdate ?m (account0 ''T1'' ''A'' ''mintX'' 5) world1)
          @ [SubscribeTask ''A'', PollTask]\<rparr>"
    by (simp add: w1 Start_def updateInitialState_def monitor0_simps accts shouldTrackToken_iff
          account0_def)
  have k: "account_key (account0 ''T1'' ''A'' ''mintX'' 5) = ''A:mintX''"
    by (simp add: account_key_def account0_def)
  have x: "DAList.lookup (heap ?w (state ?m)) ''A:mintX'' = Some (account0 ''T1'' ''A'' ''mintX'' 5)"
    using lookup_processAccountUpdate[of ?m "account0 ''T1'' ''A'' ''mintX'' 5" world1 "''A:mintX''"]
    by (simp add: start k)
  have y: "DAList.lookup (heap ?w (state ?m)) ''A:mintY'' = None"
    using lookup_processAccountUpdate[of ?m "account0 ''T1'' ''A'' ''mintX'' 5" world1 "''A:mintY''"]
    by (simp add: start k world1_simps)
  have ne: "tokens ?m \<noteq> []" by (simp add: monitor0_simps)
  from state_holds_tracked_mints_only[OF m r] x ne
  have "Mint (account0 ''T1'' ''A'' ''mintX'' 5) \<in> set (tokens ?m)" by blast
  with m r x y show ?thesis by blast
qed

section \<open>Bootstrap\<close>

lemma extends_refl: "extends w w"
  by (simp add: extends_def)

lemma extends_trans: "extends w w1 \<Longrightarrow> extends w1 w2 \<Longrightarrow> extends w w2"
  by (auto simp add: extends_def)

lemma extends_processAccountUpdate: "extends w (processAccountUpdate m account w)"
  by (simp add: extends_def changes_processAccountUpdate goroutines_processAccountUpdate)

lemma extends_processAccounts: "extends w (processAccounts m accounts w)"
proof (induction accounts arbitrary: w)
  case Nil
  show ?case by (simp add: extends_refl)
next
  case (Cons a accounts)
  show ?case
    using extends_trans[OF extends_processAccountUpdate Cons.IH] Cons.IH by simp
qed

lemma extends_updateInitialState_loop: "extends w (snd (updateInitialState_loop c m ws w))"
proof (induction ws arbitrary: w)
  case Nil
  show ?case by (simp add: extends_refl)
next
  case (Cons wl ws)
  show ?case
    using extends_trans[OF extends_processAccounts Cons.IH]
    by (cases "GetTokenAccounts c wl") (simp_all add: extends_refl)
qed

lemma updateInitialState_loop_prefix:
  "\<forall>wl \<in> set ws1. GetTokenAccounts c wl = Inr (accs wl) \<Longrightarrow>
   updateInitialState_loop c m (ws1 @ rest) w
     = updateInitialState_loop c m rest (processAccounts m (concat (map accs ws1)) w)"
  by (induction ws1 arbitrary: w) (simp_all add: processAccounts_append)

lemma lookup_processAccounts_other:
  "\<forall>b \<in> set xs. shouldTrackToken m (Mint b) \<longrightarrow> account_key b \<noteq> k \<Longrightarrow>
   DAList.lookup (heap (processAccounts m xs w) (state m)) k = DAList.lookup (heap w (state m)) k"
  by (induction xs arbitrary: w) (auto simp add: lookup_processAccountUpdate)

lemma lookup_processAccounts_kept:
  "\<exists>r. DAList.lookup (heap w (state m)) k = Some r \<and> account_key r = k \<Longrightarrow>
   \<exists>r. DAList.lookup (heap (processAccounts m xs w) (state m)) k = Some r \<and> account_key r = k"
  by (induction xs arbitrary: w) (simp_all add: lookup_processAccountUpdate)

lemma lookup_processAccounts_present:
  "a \<in> set xs \<Longrightarrow> shouldTrackToken m (Mint a) \<Longrightarrow>
   \<exists>r. DAList.lookup (heap (processAccounts m xs w) (state m)) (account_key a) = Some r
        \<and> account_key r = account_key a"
proof (induction xs arbitrary: w)
  case Nil
  then show ?case by simp
next
  case (Cons x xs)
  show ?case
  proof (cases "a = x")
    case True
    with Cons.prems show ?thesis
      by (simp add: lookup_processAccounts_kept lookup_processAccountUpdate)
  next
    case False
    with Cons show ?thesis by simp
  qed
qed

lemma Start_failure:
  assumes "wallets m = ws1 @ W1 # ws2"
    and "\<forall>wl \<in> set ws1. GetTokenAccounts c wl = Inr (accs wl)"
    and "GetTokenAccounts c W1 = Inl err"
  shows "Start c m w = (Some err, processAccounts m (concat (map accs ws1)) w)"
  using assms(1,3) updateInitialState_loop_prefix[OF assms(2), of m "W1 # ws2" w]
  by (simp add: Start_def updateInitialState_def)

lemma extends_Start: "extends (snd (updateInitialState c m w)) (snd (Start c m w))"
  by (cases "updateInitialState c m w")
     (auto simp add: Start_def extends_def split: option.splits)

text \<open>
  C3, as stated, fails: \<^verbatim>\<open>updateInitialState\<close> returns at the first fetch that fails.
  With the wallets \<^verbatim>\<open>W1, W2\<close> in this order, the fetch of \<^verbatim>\<open>W1\<close> failing and that
  of \<^verbatim>\<open>W2\<close> able to succeed, \<^verbatim>\<open>Start\<close> returns the error and the tracked account of
  \<^verbatim>\<open>W2\<close> is not in the map that \<^verbatim>\<open>GetCurrentState\<close> returns: \<^verbatim>\<open>W2\<close> is never
  fetched.
\<close>

theorem partial_bootstrap_counterexample:
  "GetTokenAccounts (client0 rpc_W1_down) ''W1'' = Inl ''failed to get token accounts: connection refused''
   \<and> GetTokenAccounts (client0 rpc_W1_down) ''W2'' = Inr [account0 ''T2'' ''W2'' ''M1'' 7]
   \<and> fst (Start (client0 rpc_W1_down) (monitor0 [''W1'', ''W2''] []) world1)
        = Some ''failed to get token accounts: connection refused''
   \<and> shouldTrackToken (monitor0 [''W1'', ''W2''] []) (Mint (account0 ''T2'' ''W2'' ''M1'' 7))
   \<and> DAList.lookup
        (heap (snd (GetCurrentState (monitor0 [''W1'', ''W2''] [])
                 (snd (Start (client0 rpc_W1_down) (monitor0 [''W1'', ''W2''] []) world1))))
           (fst (GetCurrentState (monitor0 [''W1'', ''W2''] [])
                 (snd (Start (client0 rpc_W1_down) (monitor0 [''W1'', ''W2''] []) world1)))))
        (account_key (account0 ''T2'' ''W2'' ''M1'' 7))
      = None"
proof -
  let ?m = "monitor0 [''W1'', ''W2''] []" and ?c = "client0 rpc_W1_down"
  have f1: "GetTokenAccounts ?c ''W1'' = Inl ''failed to get token accounts: connection refused''"
    by (simp add: GetTokenAccounts_def client0_def rpc_W1_down_def)
  have f2: "GetTokenAccounts ?c ''W2'' = Inr [account0 ''T2'' ''W2'' ''M1'' 7]"
    by (simp add: GetTokenAccounts_def client0_def rpc_W1_down_def item0_def account0_def)
  have start: "Start ?c ?m world1 = (Some ''failed to get token accounts: connection refused'', world1)"
    by (simp add: Start_def updateInitialState_def monitor0_simps f1)
  have ne: "state ?m \<noteq> nextAddr world1" by (simp add: monitor0_simps world1_simps)
  show ?thesis
    by (simp add: f1 f2 start GetCurrentState_eq[OF ne] shouldTrackToken_iff monitor0_simps
          world1_simps)
qed

text \<open>
  C3, amended. When the first fetch that fails is that of wallet \<^verbatim>\<open>W1\<close>, \<^verbatim>\<open>Start\<close>
  returns that error at once, without starting a subscription or the polling, and the
  world is the one left by the snapshots of the wallets listed before \<^verbatim>\<open>W1\<close>. So the
  map that \<^verbatim>\<open>GetCurrentState\<close> returns holds a record under the key of every tracked
  account of a wallet listed before \<^verbatim>\<open>W1\<close>, and under every other key what the store
  held before the bootstrap: the wallets listed after \<^verbatim>\<open>W1\<close> contribute nothing.
\<close>

theorem bootstrap_stops_at_first_failure:
  assumes "wallets m = ws1 @ W1 # ws2"
    and "\<forall>wl \<in> set ws1. GetTokenAccounts c wl = Inr (accs wl)"
    and "GetTokenAccounts c W1 = Inl err"
    and "state m < nextAddr w"
  shows "Start c m w = (Some err, processAccounts m (concat (map accs ws1)) w)
       \<and> (\<forall>W2 \<in> set ws1. \<forall>a \<in> set (accs W2). shouldTrackToken m (Mint a) \<longrightarrow>
            (\<exists>r. DAList.lookup
                    (heap (snd (GetCurrentState m (snd (Start c m w))))
                       (fst (GetCurrentState m (snd (Start c m w)))))
                    (account_key a) = Some r
                 \<and> account_key r = account_key a))
       \<and> (\<forall>k. (\<forall>W2 \<in> set ws1. \<forall>a \<in> set (accs W2).
                   shouldTrackToken m (Mint a) \<longrightarrow> account_key a \<noteq> k) \<longrightarrow>
              DAList.lookup
                (heap (snd (GetCurrentState m (snd (Start c m w))))
                   (fst (GetCurrentState m (snd (Start c m w)))))
                k
              = DAList.lookup (heap w (state m)) k)"
proof -
  let ?w' = "processAccounts m (concat (map accs ws1)) w"
  have start: "Start c m w = (Some err, ?w')"
    using assms(1-3) by (rule Start_failure)
  have "frame m w ?w'" by (rule frame_processAccounts)
  with assms(4) have "state m \<noteq> nextAddr ?w'" by (simp add: frame_def)
  then have copy: "heap (snd (GetCurrentState m ?w')) (fst (GetCurrentState m ?w'))
      = heap ?w' (state m)"
    by (simp add: GetCurrentState_eq)
  have present: "\<exists>r. DAList.lookup (heap ?w' (state m)) (account_key a) = Some r
                 \<and> account_key r = account_key a"
    if "W2 \<in> set ws1" "a \<in> set (accs W2)" "shouldTrackToken m (Mint a)" for W2 a
  proof -
    from that(1,2) have "a \<in> set (concat (map accs ws1))" by auto
    then show ?thesis using that(3) by (rule lookup_processAccounts_present)
  qed
  have absent: "DAList.lookup (heap ?w' (state m)) k = DAList.lookup (heap w (state m)) k"
    if "\<forall>W2 \<in> set ws1. \<forall>a \<in> set (accs W2). shouldTrackToken m (Mint a) \<longrightarrow> account_key a \<noteq> k"
    for k
  proof -
    from that have "\<forall>b \<in> set (concat (map accs ws1)). shouldTrackToken m (Mint b) \<longrightarrow> account_key b \<noteq> k"
      by auto
    then show ?thesis by (rule lookup_processAccounts_other)
  qed
  from present absent show ?thesis
    by (simp add: start copy)
qed


theorem bootstrap_stops_at_first_failure_witness:
  "wallets (monitor0 [''W2'', ''W1''] []) = [''W2''] @ ''W1'' # []
   \<and> GetTokenAccounts (client0 rpc_W1_down) ''W2'' = Inr [account0 ''T2'' ''W2'' ''M1'' 7]
   \<and> GetTokenAccounts (client0 rpc_W1_down) ''W1''
        = Inl ''failed to get token accounts: connection refused''
   \<and> state (monitor0 [''W2'', ''W1''] []) < nextAddr world1
   \<and> fst (Start (client0 rpc_W1_down) (monitor0 [''W2'', ''W1''] []) world1)
        = Some ''failed to get token accounts: connection refused''
   \<and> (\<exists>r. DAList.lookup
          (heap (snd (GetCurrentState (monitor0 [''W2'', ''W1''] [])
                   (snd (Start (client0 rpc_W1_down) (monitor0 [''W2'', ''W1''] []) world1))))
             (fst (GetCurrentState (monitor0 [''W2'', ''W1''] [])
                   (snd (Start (client0 rpc_W1_down) (monitor0 [''W2'', ''W1''] []) world1)))))
          (account_key (account0 ''T2'' ''W2'' ''M1'' 7)) = Some r
        \<and> account_key r = account_key (account0 ''T2'' ''W2'' ''M1'' 7))
   \<and> DAList.lookup
          (heap (snd (GetCurrentState (monitor0 [''W2'', ''W1''] [])
                   (snd (Start (client0 rpc_W1_down) (monitor0 [''W2'', ''W1''] []) world1))))
             (fst (GetCurrentState (monitor0 [''W2'', ''W1''] [])
                   (snd (Start (client0 rpc_W1_down) (monitor0 [''W2'', ''W1''] []) world1)))))
          ''W1:M1'' = None"
proof -
  let ?m = "monitor0 [''W2'', ''W1''] []" and ?c = "client0 rpc_W1_down"
  let ?a = "account0 ''T2'' ''W2'' ''M1'' 7"
  let ?copy = "heap (snd (GetCurrentState ?m (snd (Start ?c ?m world1))))
                 (fst (GetCurrentState ?m (snd (Start ?c ?m world1))))"
  have h1: "wallets ?m = [''W2''] @ ''W1'' # []" by (simp add: monitor0_simps)
  have f2: "GetTokenAccounts ?c ''W2'' = Inr [?a]"
    by (simp add: GetTokenAccounts_def client0_def rpc_W1_down_def item0_def account0_def)
  then have h2: "\<forall>wl \<in> set [''W2'']. GetTokenAccounts ?c wl = Inr ((\<lambda>wl. [?a]) wl)" by simp
  have h3: "GetTokenAccounts ?c ''W1'' = Inl ''failed to get token accounts: connection refused''"
    by (simp add: GetTokenAccounts_def client0_def rpc_W1_down_def)
  have h4: "state ?m < nextAddr world1" by (simp add: monitor0_simps world1_simps)
  have tr: "shouldTrackToken ?m (Mint ?a)" by (simp add: shouldTrackToken_iff monitor0_simps)
  have other: "account_key ?a \<noteq> ''W1:M1''" by (simp add: account_key_def account0_def)
  note main = bootstrap_stops_at_first_failure[OF h1 h2 h3 h4]
  from main have 1: "fst (Start ?c ?m world1) = Some ''failed to get token accounts: connection refused''"
    by simp
  from main have present: "\<forall>W2 \<in> set [''W2'']. \<forall>a \<in> set [?a]. shouldTrackToken ?m (Mint a) \<longrightarrow>
            (\<exists>r. DAList.lookup ?copy (account_key a) = Some r \<and> account_key r = account_key a)"
    by (rule conjunct2 [THEN conjunct1])
  from main have absent: "\<forall>k. (\<forall>W2 \<in> set [''W2'']. \<forall>a \<in> set [?a].
                   shouldTrackToken ?m (Mint a) \<longrightarrow> account_key a \<noteq> k) \<longrightarrow>
              DAList.lookup ?copy k = DAList.lookup (heap world1 (state ?m)) k"
    by (rule conjunct2 [THEN conjunct2])
  from present tr have 2: "\<exists>r. DAList.lookup ?copy (account_key ?a) = Some r
        \<and> account_key r = account_key ?a"
    by simp
  from absent other have "DAList.lookup ?copy ''W1:M1'' = DAList.lookup (heap world1 (state ?m)) ''W1:M1''"
    by simp
  then have 3: "DAList.lookup ?copy ''W1:M1'' = None" by (simp add: world1_simps)
  from h1 f2 h3 h4 1 2 3 show ?thesis by blast
qed

text \<open>
  C8. During the bootstrap of \<^verbatim>\<open>Start\<close>, take a record that the snapshot of a wallet
  returns (the snapshots of the wallets before it succeeded), whose mint is tracked and
  whose key was not seen before: the store holds nothing under the key, and no tracked
  record earlier in the bootstrap has it. The record is declared a change: it is logged as
  one, and one goroutine per registered handler is started for it, right after the effects
  of the records before it. Nothing suppresses the notification of a first-seen account.
\<close>

theorem bootstrap_notifies_first_seen:
  assumes "wallets m = ws1 @ wl # ws2"
    and "\<forall>x \<in> set ws1. GetTokenAccounts c x = Inr (accs x)"
    and "GetTokenAccounts c wl = Inr (pre @ a # post)"
    and "shouldTrackToken m (Mint a)"
    and "DAList.lookup (heap w (state m)) (account_key a) = None"
    and "\<forall>b \<in> set (concat (map accs ws1) @ pre).
           shouldTrackToken m (Mint b) \<longrightarrow> account_key b \<noteq> account_key a"
  shows "\<exists>cs gs.
           changes (snd (Start c m w))
             = changes (processAccounts m (concat (map accs ws1) @ pre) w) @ a # cs
         \<and> goroutines (snd (Start c m w))
             = goroutines (processAccounts m (concat (map accs ws1) @ pre) w)
                 @ notify_handlers m a @ gs"
proof -
  let ?W = "processAccounts m (concat (map accs ws1) @ pre) w"
  let ?Wa = "processAccountUpdate m a ?W"
  have "DAList.lookup (heap ?W (state m)) (account_key a) = DAList.lookup (heap w (state m)) (account_key a)"
    using assms(6) by (rule lookup_processAccounts_other)
  with assms(5) have new: "DAList.lookup (heap ?W (state m)) (account_key a) = None" by simp
  have ch: "changes ?Wa = changes ?W @ [a]"
    and go: "goroutines ?Wa = goroutines ?W @ notify_handlers m a"
    by (simp_all add: changes_processAccountUpdate goroutines_processAccountUpdate new
          balanceChanged_def)
  have "updateInitialState c m w
          = updateInitialState_loop c m (wl # ws2) (processAccounts m (concat (map accs ws1)) w)"
    using assms(1) updateInitialState_loop_prefix[OF assms(2), of m "wl # ws2" w]
    by (simp add: updateInitialState_def)
  also have "\<dots> = updateInitialState_loop c m ws2 (processAccounts m post ?Wa)"
    using assms(3,4) by (simp add: processAccounts_append)
  finally have run: "updateInitialState c m w
          = updateInitialState_loop c m ws2 (processAccounts m post ?Wa)" .
  have "extends ?Wa (processAccounts m post ?Wa)" by (rule extends_processAccounts)
  then have "extends ?Wa (snd (updateInitialState c m w))"
    unfolding run by (rule extends_trans) (rule extends_updateInitialState_loop)
  then have "extends ?Wa (snd (Start c m w))"
    by (rule extends_trans) (rule extends_Start)
  then obtain cs gs where "changes (snd (Start c m w)) = changes ?Wa @ cs"
    and "goroutines (snd (Start c m w)) = goroutines ?Wa @ gs"
    by (auto simp add: extends_def)
  then show ?thesis by (simp add: ch go)
qed

theorem bootstrap_notifies_first_seen_witness:
  "wallets (monitor0 [''A''] []) = [] @ ''A'' # []
   \<and> GetTokenAccounts (client0 (\<lambda>pk. Inr [item0 ''T1'' ''M1'' 5, item0 ''T2'' ''M2'' 7])) ''A''
        = Inr ([account0 ''T1'' ''A'' ''M1'' 5] @ account0 ''T2'' ''A'' ''M2'' 7 # [])
   \<and> shouldTrackToken (monitor0 [''A''] []) (Mint (account0 ''T2'' ''A'' ''M2'' 7))
   \<and> DAList.lookup (heap world1 (state (monitor0 [''A''] [])))
        (account_key (account0 ''T2'' ''A'' ''M2'' 7)) = None
   \<and> account_key (account0 ''T1'' ''A'' ''M1'' 5) \<noteq> account_key (account0 ''T2'' ''A'' ''M2'' 7)
   \<and> (\<exists>cs gs.
         changes (snd (Start (client0 (\<lambda>pk. Inr [item0 ''T1'' ''M1'' 5, item0 ''T2'' ''M2'' 7]))
                    (monitor0 [''A''] []) world1))
           = [account0 ''T1'' ''A'' ''M1'' 5] @ account0 ''T2'' ''A'' ''M2'' 7 # cs
       \<and> goroutines (snd (Start (client0 (\<lambda>pk. Inr [item0 ''T1'' ''M1'' 5, item0 ''T2'' ''M2'' 7]))
                    (monitor0 [''A''] []) world1))
           = [HandlerCall 0 (account0 ''T1'' ''A'' ''M1'' 5), HandlerCall 1 (account0 ''T1'' ''A'' ''M1'' 5)]
               @ [HandlerCall 0 (account0 ''T2'' ''A'' ''M2'' 7),
                  HandlerCall 1 (account0 ''T2'' ''A'' ''M2'' 7)] @ gs)"
proof -
  let ?m = "monitor0 [''A''] []"
  let ?c = "client0 (\<lambda>pk. Inr [item0 ''T1'' ''M1'' 5, item0 ''T2'' ''M2'' 7])"
  let ?a1 = "account0 ''T1'' ''A'' ''M1'' 5" and ?a2 = "account0 ''T2'' ''A'' ''M2'' 7"
  have h1: "wallets ?m = [] @ ''A'' # []" by (simp add: monitor0_simps)
  have h2: "\<forall>x \<in> set []. GetTokenAccounts ?c x = Inr ((\<lambda>x. []) x)" by simp
  have h3: "GetTokenAccounts ?c ''A'' = Inr ([?a1] @ ?a2 # [])"
    by (simp add: GetTokenAccounts_client0 item0_def account0_def)
  have h4: "shouldTrackToken ?m (Mint ?a2)" by (simp add: shouldTrackToken_iff monitor0_simps)
  have h5: "DAList.lookup (heap world1 (state ?m)) (account_key ?a2) = None"
    by (simp add: world1_simps)
  have ne: "account_key ?a1 \<noteq> account_key ?a2" by (simp add: account_key_def account0_def)
  then have h6: "\<forall>b \<in> set (concat (map (\<lambda>x. []) []) @ [?a1]).
           shouldTrackToken ?m (Mint b) \<longrightarrow> account_key b \<noteq> account_key ?a2"
    by simp
  have tr1: "shouldTrackToken ?m (Mint ?a1)" by (simp add: shouldTrackToken_iff monitor0_simps)
  have pre: "changes (processAccounts ?m (concat (map (\<lambda>x. []) []) @ [?a1]) world1) = [?a1]"
    "goroutines (processAccounts ?m (concat (map (\<lambda>x. []) []) @ [?a1]) world1)
       = [HandlerCall 0 ?a1, HandlerCall 1 ?a1]"
    by (simp_all add: tr1 changes_processAccountUpdate goroutines_processAccountUpdate
          world1_simps balanceChanged_def notify_handlers_def monitor0_simps)
  have nh: "notify_handlers ?m ?a2 = [HandlerCall 0 ?a2, HandlerCall 1 ?a2]"
    by (simp add: notify_handlers_def monitor0_simps)
  from bootstrap_notifies_first_seen[OF h1 h2 h3 h4 h5 h6]
  have "\<exists>cs gs.
         changes (snd (Start ?c ?m world1)) = [?a1] @ ?a2 # cs
       \<and> goroutines (snd (Start ?c ?m world1))
           = [HandlerCall 0 ?a1, HandlerCall 1 ?a1] @ [HandlerCall 0 ?a2, HandlerCall 1 ?a2] @ gs"
    by (simp only: pre nh)
  with h1 h3 h4 h5 ne show ?thesis by blast
qed

end
